theory Spec2Isabelle
  imports Main "HOL-Library.Char_ord" "HOL-Library.List_Lexorder" "HOL-Library.Sublist"
begin

section \<open>The file system, the clock and the Python run-time that backup\_validate.py uses\<close>

text \<open>
  A path is the list of its components below the root of the modelled tree, the way
  \<^verbatim>\<open>pathlib.Path(p).parts\<close> splits a resolved path. A regular file has a content and a
  modification time, a directory has its entries in the order the operating system
  enumerates them (\<^verbatim>\<open>iterdir\<close>, \<^verbatim>\<open>scandir\<close>).

  A file's content is a byte string, a tar archive (\<^verbatim>\<open>tarfile.is_tarfile\<close> holds for those
  and only those; the flag says whether it is gzip-compressed, the entries are the tree
  that extracting it into an empty directory yields), or a content followed by one more
  CSV row, which is what \<^verbatim>\<open>csv.writer.writerow\<close> on a file opened in append mode produces.
\<close>

type_synonym path = "string list"

datatype error =
    NameError string
  | FileNotFoundError
  | NotADirectoryError
  | IsADirectoryError
  | FileExistsError
  | StopIteration

datatype message = NoMessage | ChecksumMismatch | StrOf error

datatype row =
    Header
  | Entry (stamp: nat) (row_source: path) (row_backup: "path option")
          (status: string) (attempt_no: int) (row_msg: message)

datatype node =
    File content nat
  | Dir "(string \<times> node) list"
and content =
    Bytes string
  | Archive bool "(string \<times> node) list"
  | Appended content row

datatype digest = Sha256 content | Sha256_hex "digest list"

record world =
  fs :: node
  cwd :: path
  now :: nat

fun lookup :: "node \<Rightarrow> path \<Rightarrow> node option" where
  "lookup n [] = Some n"
| "lookup (File c t) (k # p) = None"
| "lookup (Dir es) (k # p) = (case map_of es k of None \<Rightarrow> None | Some n \<Rightarrow> lookup n p)"

definition set_entry :: "string \<Rightarrow> node \<Rightarrow> (string \<times> node) list \<Rightarrow> (string \<times> node) list" where
  "set_entry k n es =
     (if k \<in> fst ` set es then map (\<lambda>(k', n'). if k' = k then (k', n) else (k', n')) es
      else es @ [(k, n)])"

definition del_entry :: "string \<Rightarrow> (string \<times> node) list \<Rightarrow> (string \<times> node) list" where
  "del_entry k es = filter (\<lambda>(k', n'). k' \<noteq> k) es"

fun store :: "path \<Rightarrow> node \<Rightarrow> node \<Rightarrow> node option" where
  "store [] new n = Some new"
| "store (k # p) new (File c t) = None"
| "store [k] new (Dir es) = Some (Dir (set_entry k new es))"
| "store (k # p) new (Dir es) =
     (case map_of es k of
        None \<Rightarrow> None
      | Some n \<Rightarrow> (case store p new n of
                    None \<Rightarrow> None
                  | Some n' \<Rightarrow> Some (Dir (set_entry k n' es))))"

fun remove :: "path \<Rightarrow> node \<Rightarrow> node option" where
  "remove [] n = None"
| "remove (k # p) (File c t) = None"
| "remove [k] (Dir es) = (if k \<in> fst ` set es then Some (Dir (del_entry k es)) else None)"
| "remove (k # p) (Dir es) =
     (case map_of es k of
        None \<Rightarrow> None
      | Some n \<Rightarrow> (case remove p n of
                    None \<Rightarrow> None
                  | Some n' \<Rightarrow> Some (Dir (set_entry k n' es))))"

fun rglob :: "(string \<Rightarrow> bool) \<Rightarrow> node \<Rightarrow> (path \<times> node) list" where
  "rglob m (File c t) = []"
| "rglob m (Dir es) =
     map (\<lambda>e. ([fst e], snd e)) (filter (\<lambda>e. m (fst e)) es) @
     concat (map (\<lambda>e. map (\<lambda>r. (fst e # fst r, snd r)) (rglob m (snd e))) es)"


definition exists_path :: "node \<Rightarrow> path \<Rightarrow> bool" where
  "exists_path root p = (lookup root p \<noteq> None)"

definition is_file :: "node \<Rightarrow> path \<Rightarrow> bool" where
  "is_file root p = (case lookup root p of Some (File c t) \<Rightarrow> True | _ \<Rightarrow> False)"

definition is_dir :: "node \<Rightarrow> path \<Rightarrow> bool" where
  "is_dir root p = (case lookup root p of Some (Dir es) \<Rightarrow> True | _ \<Rightarrow> False)"

text \<open>\<^verbatim>\<open>Path.name\<close>: the last component, empty for the root.\<close>

definition name :: "path \<Rightarrow> string" where
  "name p = (if p = [] then [] else last p)"

text \<open>
  The error of a system call on a path that does not resolve: \<^verbatim>\<open>ENOTDIR\<close> when a
  component on the way is a regular file, \<^verbatim>\<open>ENOENT\<close> when one is missing.
\<close>

fun errno_of :: "node \<Rightarrow> path \<Rightarrow> error" where
  "errno_of n [] = FileNotFoundError"
| "errno_of (File c t) (k # p) = NotADirectoryError"
| "errno_of (Dir es) (k # p) =
     (case map_of es k of None \<Rightarrow> FileNotFoundError | Some n \<Rightarrow> errno_of n p)"

text \<open>\<^verbatim>\<open>Path.mkdir()\<close> with its defaults: the parent must exist, the path must not.\<close>

definition mkdir :: "path \<Rightarrow> node \<Rightarrow> error + node" where
  "mkdir p root =
     (case lookup root p of
        Some n \<Rightarrow> Inl FileExistsError
      | None \<Rightarrow>
          (case lookup root (butlast p) of
             None \<Rightarrow> Inl (errno_of root (butlast p))
           | Some (File c t) \<Rightarrow> Inl NotADirectoryError
           | Some (Dir es) \<Rightarrow>
               (case store p (Dir []) root of
                  None \<Rightarrow> Inl FileNotFoundError
                | Some root' \<Rightarrow> Inr root')))"

text \<open>\<^verbatim>\<open>Path.mkdir(parents=True, exist_ok=True)\<close>.\<close>

fun mkdir_parents :: "path \<Rightarrow> node \<Rightarrow> error + node" where
  "mkdir_parents [] (Dir es) = Inr (Dir es)"
| "mkdir_parents [] (File c t) = Inl FileExistsError"
| "mkdir_parents (k # p) (File c t) = Inl NotADirectoryError"
| "mkdir_parents (k # p) (Dir es) =
     (case mkdir_parents p (case map_of es k of None \<Rightarrow> Dir [] | Some n \<Rightarrow> n) of
        Inl e \<Rightarrow> Inl e
      | Inr n' \<Rightarrow> Inr (Dir (set_entry k n' es)))"

text \<open>\<^verbatim>\<open>shutil.rmtree\<close> removes a directory with all it holds; \<^verbatim>\<open>Path.unlink\<close> a regular file.\<close>

definition rmtree :: "path \<Rightarrow> node \<Rightarrow> error + node" where
  "rmtree p root =
     (case lookup root p of
        None \<Rightarrow> Inl (errno_of root p)
      | Some (File c t) \<Rightarrow> Inl NotADirectoryError
      | Some (Dir es) \<Rightarrow>
          (case remove p root of None \<Rightarrow> Inl FileNotFoundError | Some root' \<Rightarrow> Inr root'))"

definition unlink :: "path \<Rightarrow> node \<Rightarrow> error + node" where
  "unlink p root =
     (case lookup root p of
        None \<Rightarrow> Inl (errno_of root p)
      | Some (Dir es) \<Rightarrow> Inl IsADirectoryError
      | Some (File c t) \<Rightarrow>
          (case remove p root of None \<Rightarrow> Inl FileNotFoundError | Some root' \<Rightarrow> Inr root'))"

text \<open>
  Opening a path for writing and closing it with content \<open>c\<close> at time \<open>t\<close>: the file is
  created or replaced; a directory at the path, or a parent that is not a directory,
  is an error.
\<close>

definition write_file :: "path \<Rightarrow> content \<Rightarrow> nat \<Rightarrow> node \<Rightarrow> error + node" where
  "write_file p c t root =
     (case lookup root p of
        Some (Dir es) \<Rightarrow> Inl IsADirectoryError
      | Some (File c0 t0) \<Rightarrow>
          (case store p (File c t) root of None \<Rightarrow> Inl FileNotFoundError | Some root' \<Rightarrow> Inr root')
      | None \<Rightarrow>
          (case lookup root (butlast p) of
             None \<Rightarrow> Inl (errno_of root (butlast p))
           | Some (File c0 t0) \<Rightarrow> Inl NotADirectoryError
           | Some (Dir es) \<Rightarrow>
               (case store p (File c t) root of
                  None \<Rightarrow> Inl FileNotFoundError
                | Some root' \<Rightarrow> Inr root')))"

subsection \<open>Glob patterns\<close>

text \<open>
  \<^verbatim>\<open>Path.rglob(pattern)\<close> reads its argument as a pattern of \<^verbatim>\<open>fnmatch\<close>: \<^verbatim>\<open>*\<close> stands for
  any run of characters, \<^verbatim>\<open>?\<close> for one character, \<^verbatim>\<open>[seq]\<close> and \<^verbatim>\<open>[!seq]\<close> for one
  character in or out of a set with ranges \<^verbatim>\<open>a-z\<close>; a \<^verbatim>\<open>[\<close> that no \<^verbatim>\<open>]\<close> closes is
  literal. It walks the tree in pre-order: the directory's own matching entries first,
  then each subdirectory in enumeration order (function \<open>rglob\<close> above). Names holding
  \<^verbatim>\<open>**\<close> are outside this model.
\<close>

fun class_has :: "string \<Rightarrow> char \<Rightarrow> bool" where
  "class_has [] c = False"
| "class_has [a] c = (c = a)"
| "class_has [a, b] c = (c = a \<or> c = b)"
| "class_has (a # b # hi # rest) c =
     (if b = CHR ''-'' then (a \<le> c \<and> c \<le> hi) \<or> class_has rest c
      else c = a \<or> class_has (b # hi # rest) c)"

text \<open>
  The text after an opening bracket, split as \<^verbatim>\<open>fnmatch.translate\<close> splits it: whether
  the set is negated, its members, and the pattern after the closing bracket.
\<close>

definition split_class :: "string \<Rightarrow> (bool \<times> string \<times> string) option" where
  "split_class ps =
     (let neg = (ps \<noteq> [] \<and> hd ps = CHR ''!'');
          q = (if neg then tl ps else ps);
          lead = (if q \<noteq> [] \<and> hd q = CHR '']'' then [CHR '']''] else []);
          r = (if lead = [] then q else tl q)
      in if CHR '']'' \<in> set r
         then Some (neg, lead @ takeWhile (\<lambda>x. x \<noteq> CHR '']'') r,
                    tl (dropWhile (\<lambda>x. x \<noteq> CHR '']'') r))
         else None)"

function glob_match :: "string \<Rightarrow> string \<Rightarrow> bool" where
  "glob_match [] s = (s = [])"
| "glob_match (p # ps) s =
     (if p = CHR ''*'' then
        glob_match ps s \<or> (case s of [] \<Rightarrow> False | c # cs \<Rightarrow> glob_match (p # ps) cs)
      else if p = CHR ''?'' then
        (case s of [] \<Rightarrow> False | c # cs \<Rightarrow> glob_match ps cs)
      else if p = CHR ''['' \<and> split_class ps \<noteq> None then
        (case s of
           [] \<Rightarrow> False
         | c # cs \<Rightarrow>
             (case split_class ps of
                None \<Rightarrow> False
              | Some (neg, members, rest) \<Rightarrow>
                  (class_has members c \<noteq> neg) \<and> glob_match rest cs))
      else
        (case s of [] \<Rightarrow> False | c # cs \<Rightarrow> c = p \<and> glob_match ps cs))"
  by pat_completeness auto

lemma split_class_shorter:
  assumes "split_class ps = Some (neg, members, rest)"
  shows "length rest < length ps"
proof -
  have dw: "length (tl (dropWhile P r)) < length r" if "r \<noteq> []" for P and r :: string
  proof -
    have "length (tl (dropWhile P r)) \<le> length (dropWhile P r) - 1" by simp
    moreover have "length (dropWhile P r) \<le> length r" by (rule length_dropWhile_le)
    ultimately show ?thesis using that by (cases r) auto
  qed
  have ne: "r \<noteq> []" if "x \<in> set r" for x and r :: string
    using that by auto
  from assms show ?thesis
    unfolding split_class_def Let_def
    by (cases ps) (auto split: if_splits dest!: ne dest: dw [THEN less_imp_le] dw intro: less_SucI less_trans)
qed

termination glob_match
  by (relation "measure (\<lambda>(p, s). length p + length s)")
     (auto dest: split_class_shorter)

declare glob_match.simps [simp del]

section \<open>backup\_validate.py\<close>

subsection \<open>Names and the clock\<close>

text \<open>
  The names bound at module level when a function of the module runs: those of the
  \<^verbatim>\<open>import\<close> statement of line 10 and of the six \<^verbatim>\<open>def\<close> statements. A name that is
  neither local, nor bound here, nor a builtin raises \<^verbatim>\<open>NameError\<close> when it is evaluated.
\<close>

definition module_globals :: "string list" where
  "module_globals =
     [''argparse'', ''hashlib'', ''tarfile'', ''shutil'', ''os'', ''time'', ''datetime'',
      ''pathlib'', ''csv'',
      ''sha256_of_file'', ''make_backup'', ''verify_backup'', ''rotate_backups'',
      ''log_entry'', ''main'']"

text \<open>The builtins the module refers to.\<close>

definition builtins :: "string list" where
  "builtins =
     [''open'', ''iter'', ''sorted'', ''list'', ''next'', ''str'', ''int'', ''print'',
      ''Exception'', ''SystemExit'', ''True'', ''False'']"

definition load_global :: "string \<Rightarrow> error + unit" where
  "load_global x =
     (if x \<in> set module_globals \<or> x \<in> set builtins then Inr () else Inl (NameError x))"

text \<open>
  The clock counts seconds. \<^verbatim>\<open>strftime("%Y%m%dT%H%M%SZ")\<close> has the precision of a second;
  the calendar is left out, and the stamp is the decimal numeral of the clock.
\<close>

function decimal :: "nat \<Rightarrow> string" where
  "decimal n =
     (if n < 10 then [char_of (48 + n)] else decimal (n div 10) @ [char_of (48 + n mod 10)])"
  by pat_completeness auto
termination
  by (relation "measure id") auto

definition utc_stamp :: "nat \<Rightarrow> string" where
  "utc_stamp t = decimal t @ ''Z''"

definition sleep :: "nat \<Rightarrow> world \<Rightarrow> world" where
  "sleep n w = w\<lparr>now := now w + n\<rparr>"

subsection \<open>\<^verbatim>\<open>sha256_of_file\<close>\<close>

text \<open>
  A digest is kept as the data that were fed to the hash object: a file's content, read
  in chunks of 8192 bytes, or the hexadecimal digests that \<^verbatim>\<open>agg_checksum\<close> feeds to
  it in turn. Equal data give equal digests; that different data give different digests is
  the usual idealisation of SHA-256.
\<close>

definition sha256_of_file :: "node \<Rightarrow> path \<Rightarrow> error + digest" where
  "sha256_of_file root p =
     (case lookup root p of
        None \<Rightarrow> Inl (errno_of root p)
      | Some (Dir es) \<Rightarrow> Inl IsADirectoryError
      | Some (File c t) \<Rightarrow> Inr (Sha256 c))"

subsection \<open>\<^verbatim>\<open>make_backup\<close>\<close>

text \<open>
  \<^verbatim>\<open>with tarfile.open(out_path, mode) as tar: tar.add(str(src), arcname=...)\<close>: opening
  creates or truncates the archive file; \<^verbatim>\<open>add\<close> stores the tree at \<open>src\<close> under the member
  name, skipping the archive file itself when it lies in that tree; leaving the \<^verbatim>\<open>with\<close>
  block closes the archive, also when \<^verbatim>\<open>add\<close> has raised.
\<close>

definition tar_add :: "path \<Rightarrow> bool \<Rightarrow> nat \<Rightarrow> path \<Rightarrow> string \<Rightarrow> node \<Rightarrow> (error + unit) \<times> node" where
  "tar_add out_path gz t src arcname root =
     (case write_file out_path (Archive gz []) t root of
        Inl e \<Rightarrow> (Inl e, root)
      | Inr root1 \<Rightarrow>
          (case lookup (case remove out_path root1 of None \<Rightarrow> root1 | Some r \<Rightarrow> r) src of
             None \<Rightarrow> (Inl (errno_of root1 src), root1)
           | Some member \<Rightarrow>
               (case write_file out_path (Archive gz [(arcname, member)]) t root1 of
                  Inl e \<Rightarrow> (Inl e, root1)
                | Inr root2 \<Rightarrow> (Inr (), root2))))"

text \<open>\<^verbatim>\<open>shutil.copy2\<close>: the bytes and the modification time of a regular file.\<close>

definition copy2 :: "path \<Rightarrow> path \<Rightarrow> node \<Rightarrow> error + node" where
  "copy2 src dst root =
     (case lookup root src of
        None \<Rightarrow> Inl (errno_of root src)
      | Some (Dir es) \<Rightarrow> Inl IsADirectoryError
      | Some (File c t) \<Rightarrow> write_file dst c t root)"

definition make_backup :: "world \<Rightarrow> path \<Rightarrow> path \<Rightarrow> bool \<Rightarrow> (error + path) \<times> world" where
  "make_backup w source dest_dir compress =
     (let ts = utc_stamp (now w);
          src = source
      in case load_global ''Path'' of
           Inl e \<Rightarrow> (Inl e, w)
         | Inr u \<Rightarrow>
             (case mkdir_parents dest_dir (fs w) of
                Inl e \<Rightarrow> (Inl e, w)
              | Inr root1 \<Rightarrow>
                  if is_dir root1 src then
                    (let fname = name src @ ''_'' @ ts @ (if compress then ''.tar.gz'' else ''.tar'');
                         out_path = dest_dir @ [fname]
                     in case tar_add out_path compress (now w) src (name src) root1 of
                          (Inl e, root2) \<Rightarrow> (Inl e, w\<lparr>fs := root2\<rparr>)
                        | (Inr u', root2) \<Rightarrow> (Inr out_path, w\<lparr>fs := root2\<rparr>))
                  else
                    (let base = name src;
                         fname = base @ ''_'' @ ts @ (if compress then ''.gz'' else []);
                         out_path = dest_dir @ [fname]
                     in if compress then
                          (case tar_add out_path True (now w) src base root1 of
                             (Inl e, root2) \<Rightarrow> (Inl e, w\<lparr>fs := root2\<rparr>)
                           | (Inr u', root2) \<Rightarrow> (Inr out_path, w\<lparr>fs := root2\<rparr>))
                        else
                          (case copy2 src out_path root1 of
                             Inl e \<Rightarrow> (Inl e, w\<lparr>fs := root1\<rparr>)
                           | Inr root2 \<Rightarrow> (Inr out_path, w\<lparr>fs := root2\<rparr>)))))"

subsection \<open>\<^verbatim>\<open>verify_backup\<close>\<close>

definition tmpdir :: "world \<Rightarrow> path" where
  "tmpdir w = cwd w @ [''.tmp_restore'']"

definition rglob_at :: "node \<Rightarrow> path \<Rightarrow> string \<Rightarrow> (path \<times> node) list" where
  "rglob_at root p pattern =
     (case lookup root p of None \<Rightarrow> [] | Some n \<Rightarrow> rglob (glob_match pattern) n)"

fun regular :: "(path \<times> node) list \<Rightarrow> (path \<times> content) list" where
  "regular [] = []"
| "regular ((p, File c t) # xs) = (p, c) # regular xs"
| "regular ((p, Dir es) # xs) = regular xs"

text \<open>
  The nested function \<^verbatim>\<open>agg_checksum\<close>. \<^verbatim>\<open>sorted\<close> orders \<^verbatim>\<open>Path\<close> objects by their
  components, lexicographically; the paths are kept relative to \<open>root\<close> here, which gives
  the same order. The content of each file is the one the walk found.
\<close>

definition agg_checksum :: "node \<Rightarrow> path \<Rightarrow> digest" where
  "agg_checksum root0 root =
     (let items = sort_key fst (regular (rglob_at root0 root ''*''))
      in Sha256_hex (map (\<lambda>f. Sha256 (snd f)) items))"

definition is_tarfile :: "node \<Rightarrow> path \<Rightarrow> error + bool" where
  "is_tarfile root p =
     (case lookup root p of
        None \<Rightarrow> Inl (errno_of root p)
      | Some (Dir es) \<Rightarrow> Inl IsADirectoryError
      | Some (File c t) \<Rightarrow> Inr (case c of Archive gz ms \<Rightarrow> True | _ \<Rightarrow> False))"

text \<open>\<^verbatim>\<open>tar.extractall(path=target)\<close>: the members become entries of the target directory.\<close>

definition merge_entries :: "(string \<times> node) list \<Rightarrow> (string \<times> node) list \<Rightarrow> (string \<times> node) list" where
  "merge_entries es ms = foldl (\<lambda>acc m. set_entry (fst m) (snd m) acc) es ms"

definition extractall :: "path \<Rightarrow> path \<Rightarrow> node \<Rightarrow> error + node" where
  "extractall archive target root =
     (case lookup root archive of
        Some (File (Archive gz ms) t) \<Rightarrow>
          (case lookup root target of
             Some (Dir es) \<Rightarrow>
               (case store target (Dir (merge_entries es ms)) root of
                  None \<Rightarrow> Inl FileNotFoundError
                | Some root' \<Rightarrow> Inr root')
           | Some (File c t') \<Rightarrow> Inl NotADirectoryError
           | None \<Rightarrow> Inl (errno_of root target))
      | Some (File c t) \<Rightarrow> Inl FileNotFoundError
      | Some (Dir es) \<Rightarrow> Inl IsADirectoryError
      | None \<Rightarrow> Inl (errno_of root archive))"

text \<open>The body of the \<^verbatim>\<open>try\<close> statement, lines 50 to 75.\<close>

definition verify_body :: "path \<Rightarrow> path \<Rightarrow> path \<Rightarrow> node \<Rightarrow> (error + bool) \<times> node" where
  "verify_body tmp source backup_path root =
     (case is_tarfile root backup_path of
        Inl e \<Rightarrow> (Inl e, root)
      | Inr True \<Rightarrow>
          (case extractall backup_path tmp root of
             Inl e \<Rightarrow> (Inl e, root)
           | Inr root1 \<Rightarrow>
               (let srcpath = source in
                if is_file root1 srcpath then
                  (case rglob_at root1 tmp (name srcpath) of
                     [] \<Rightarrow> (Inl StopIteration, root1)
                   | restored_file # others \<Rightarrow>
                       (case sha256_of_file root1 srcpath of
                          Inl e \<Rightarrow> (Inl e, root1)
                        | Inr src_sum \<Rightarrow>
                            (case sha256_of_file root1 (tmp @ fst restored_file) of
                               Inl e \<Rightarrow> (Inl e, root1)
                             | Inr restored_sum \<Rightarrow> (Inr (src_sum = restored_sum), root1))))
                else
                  (Inr (agg_checksum root1 srcpath = agg_checksum root1 (tmp @ [name srcpath])),
                   root1)))
      | Inr False \<Rightarrow>
          (case sha256_of_file root source of
             Inl e \<Rightarrow> (Inl e, root)
           | Inr a \<Rightarrow>
               (case sha256_of_file root backup_path of
                  Inl e \<Rightarrow> (Inl e, root)
                | Inr b \<Rightarrow> (Inr (a = b), root))))"

text \<open>
  The \<^verbatim>\<open>finally\<close> clause: \<^verbatim>\<open>shutil.rmtree\<close> runs whatever the body did, and an error it
  raises replaces the body's result.
\<close>

definition finally_rmtree :: "path \<Rightarrow> (error + bool) \<times> node \<Rightarrow> (error + bool) \<times> node" where
  "finally_rmtree tmp r =
     (case rmtree tmp (snd r) of
        Inl e \<Rightarrow> (Inl e, snd r)
      | Inr root' \<Rightarrow> (fst r, root'))"

definition verify_backup :: "world \<Rightarrow> path \<Rightarrow> path \<Rightarrow> (error + bool) \<times> world" where
  "verify_backup w source backup_path =
     (let tmp = tmpdir w in
      case (if exists_path (fs w) tmp then rmtree tmp (fs w) else Inr (fs w)) of
        Inl e \<Rightarrow> (Inl e, w)
      | Inr root1 \<Rightarrow>
          (case mkdir tmp root1 of
             Inl e \<Rightarrow> (Inl e, w\<lparr>fs := root1\<rparr>)
           | Inr root2 \<Rightarrow>
               (let r = finally_rmtree tmp (verify_body tmp source backup_path root2)
                in (fst r, w\<lparr>fs := snd r\<rparr>))))"


subsection \<open>\<^verbatim>\<open>rotate_backups\<close>\<close>

text \<open>The regular files among the entries of a directory, each with its \<^verbatim>\<open>st_mtime\<close>.\<close>

fun file_mtimes :: "(string \<times> node) list \<Rightarrow> (string \<times> nat) list" where
  "file_mtimes [] = []"
| "file_mtimes ((k, File c t) # es) = (k, t) # file_mtimes es"
| "file_mtimes ((k, Dir ds) # es) = file_mtimes es"

text \<open>The slice \<^verbatim>\<open>xs[k:]\<close>; a negative \<open>k\<close> counts from the end.\<close>

definition slice_from :: "int \<Rightarrow> 'a list \<Rightarrow> 'a list" where
  "slice_from k xs = (if 0 \<le> k then drop (nat k) xs else drop (nat (int (length xs) + k)) xs)"

fun unlink_all :: "path list \<Rightarrow> node \<Rightarrow> (error + unit) \<times> node" where
  "unlink_all [] root = (Inr (), root)"
| "unlink_all (p # ps) root =
     (case unlink p root of
        Inl e \<Rightarrow> (Inl e, root)
      | Inr root' \<Rightarrow> unlink_all ps root')"

text \<open>
  \<^verbatim>\<open>sorted(..., key=mtime, reverse=True)\<close> is stable: files of equal modification time
  stay in enumeration order, as a stable ascending sort on the negated key leaves them.
\<close>

definition rotate_backups :: "world \<Rightarrow> path \<Rightarrow> int \<Rightarrow> (error + unit) \<times> world" where
  "rotate_backups w dest_dir keep =
     (case lookup (fs w) dest_dir of
        None \<Rightarrow> (Inl (errno_of (fs w) dest_dir), w)
      | Some (File c t) \<Rightarrow> (Inl NotADirectoryError, w)
      | Some (Dir es) \<Rightarrow>
          (let files = sort_key (\<lambda>f. - int (snd f)) (file_mtimes es);
               r = unlink_all (map (\<lambda>old. dest_dir @ [fst old]) (slice_from keep files)) (fs w)
           in (fst r, w\<lparr>fs := snd r\<rparr>)))"

subsection \<open>\<^verbatim>\<open>log_entry\<close>\<close>

text \<open>
  \<^verbatim>\<open>open(logfile, "a")\<close> yields the content to append to: that of the file, or the empty
  content of a file it creates, which needs the parent directory.
\<close>

definition open_append :: "path \<Rightarrow> node \<Rightarrow> error + content" where
  "open_append p root =
     (case lookup root p of
        Some (File c t) \<Rightarrow> Inr c
      | Some (Dir es) \<Rightarrow> Inl IsADirectoryError
      | None \<Rightarrow>
          (case lookup root (butlast p) of
             Some (Dir es) \<Rightarrow> Inr (Bytes [])
           | Some (File c t) \<Rightarrow> Inl NotADirectoryError
           | None \<Rightarrow> Inl (errno_of root (butlast p))))"

text \<open>
  The third column of a row is a path, or \<open>None\<close> for the text \<^verbatim>\<open>n/a\<close> that the handler
  of \<^verbatim>\<open>main\<close> writes while no backup path is known.
\<close>

definition log_entry ::
  "world \<Rightarrow> path \<Rightarrow> path \<Rightarrow> path option \<Rightarrow> string \<Rightarrow> int \<Rightarrow> message \<Rightarrow> (error + unit) \<times> world" where
  "log_entry w logfile source backup_path st attempts msg =
     (let t = now w;
          r = Entry t source backup_path st attempts msg;
          first = (\<not> exists_path (fs w) logfile)
      in case open_append logfile (fs w) of
           Inl e \<Rightarrow> (Inl e, w)
         | Inr c \<Rightarrow>
             (case write_file logfile (Appended (if first then Appended c Header else c) r) t (fs w) of
                Inl e \<Rightarrow> (Inl e, w)
              | Inr root' \<Rightarrow> (Inr (), w\<lparr>fs := root'\<rparr>)))"

subsection \<open>\<^verbatim>\<open>main\<close>: the retry loop\<close>

text \<open>
  The arguments that \<^verbatim>\<open>argparse\<close> hands to the backup branch of \<^verbatim>\<open>main\<close> (lines 118 to
  142; the restore branch of lines 108 to 116 is not part of what follows).
\<close>

record args =
  arg_source :: path
  arg_dest :: path
  arg_compress :: bool
  arg_retries :: int
  arg_keep :: int
  arg_logfile :: path

text \<open>
  \<^verbatim>\<open>main\<close> looks the names \<^verbatim>\<open>make_backup\<close> and \<^verbatim>\<open>verify_backup\<close> up in the module when
  it calls them. The loop is therefore written over any two functions of their types, and
  \<open>main\<close> below is the loop over the module's own two.
\<close>

type_synonym creator = "world \<Rightarrow> path \<Rightarrow> path \<Rightarrow> bool \<Rightarrow> (error + path) \<times> world"
type_synonym verifier = "world \<Rightarrow> path \<Rightarrow> path \<Rightarrow> (error + bool) \<times> world"

text \<open>
  The \<^verbatim>\<open>try\<close> block of lines 124 to 134, with \<open>attempts\<close> already incremented. \<open>Inr ok\<close> is
  a normal end with the new value of \<^verbatim>\<open>success\<close>; \<open>Inl e\<close> is the exception \<open>e\<close> raised,
  with the value \<^verbatim>\<open>backup_path\<close> has at that moment. All exceptions of this model are
  subclasses of \<^verbatim>\<open>Exception\<close>.
\<close>

definition try_block ::
  "creator \<Rightarrow> verifier \<Rightarrow> args \<Rightarrow> int \<Rightarrow> path option \<Rightarrow> world \<Rightarrow> (error + bool) \<times> path option \<times> world" where
  "try_block mk vf a attempts backup_path w =
     (case mk w (arg_source a) (arg_dest a) (arg_compress a) of
        (Inl e, w1) \<Rightarrow> (Inl e, backup_path, w1)
      | (Inr p, w1) \<Rightarrow>
          (case vf w1 (arg_source a) p of
             (Inl e, w2) \<Rightarrow> (Inl e, Some p, w2)
           | (Inr ok, w2) \<Rightarrow>
               if ok then
                 (case log_entry w2 (arg_logfile a) (arg_source a) (Some p) ''success'' attempts NoMessage of
                    (Inl e, w3) \<Rightarrow> (Inl e, Some p, w3)
                  | (Inr u, w3) \<Rightarrow>
                      (case rotate_backups w3 (arg_dest a) (arg_keep a) of
                         (Inl e, w4) \<Rightarrow> (Inl e, Some p, w4)
                       | (Inr u', w4) \<Rightarrow> (Inr True, Some p, w4)))
               else
                 (case log_entry w2 (arg_logfile a) (arg_source a) (Some p) ''failure'' attempts
                         ChecksumMismatch of
                    (Inl e, w3) \<Rightarrow> (Inl e, Some p, w3)
                  | (Inr u, w3) \<Rightarrow> (Inr False, Some p, sleep 5 w3))))"

text \<open>
  One iteration after \<^verbatim>\<open>attempts += 1\<close>: the \<^verbatim>\<open>try\<close> block and the handler
  \<^verbatim>\<open>except Exception as e\<close> of lines 135 to 138. An exception that \<^verbatim>\<open>log_entry\<close> raises
  in the handler is not caught.
\<close>

definition attempt ::
  "creator \<Rightarrow> verifier \<Rightarrow> args \<Rightarrow> int \<Rightarrow> path option \<Rightarrow> world \<Rightarrow> (error + bool) \<times> path option \<times> world" where
  "attempt mk vf a attempts backup_path w =
     (case try_block mk vf a attempts backup_path w of
        (Inr ok, bp, w1) \<Rightarrow> (Inr ok, bp, w1)
      | (Inl e, bp, w1) \<Rightarrow>
          (case log_entry w1 (arg_logfile a) (arg_source a) bp ''failure'' attempts (StrOf e) of
             (Inl e', w2) \<Rightarrow> (Inl e', bp, w2)
           | (Inr u, w2) \<Rightarrow> (Inr False, bp, sleep 5 w2)))"

text \<open>
  The \<^verbatim>\<open>while\<close> loop of line 121. The result carries the last values of \<^verbatim>\<open>success\<close>,
  \<^verbatim>\<open>attempts\<close> and \<^verbatim>\<open>backup_path\<close>, or the exception that left the loop.
\<close>

function retry_loop ::
  "creator \<Rightarrow> verifier \<Rightarrow> args \<Rightarrow> int \<Rightarrow> bool \<Rightarrow> path option \<Rightarrow> world
     \<Rightarrow> (error + bool) \<times> int \<times> path option \<times> world" where
  "retry_loop mk vf a attempts success backup_path w =
     (if attempts \<le> arg_retries a \<and> \<not> success then
        (case attempt mk vf a (attempts + 1) backup_path w of
           (Inl e, bp, w') \<Rightarrow> (Inl e, attempts + 1, bp, w')
         | (Inr ok, bp, w') \<Rightarrow> retry_loop mk vf a (attempts + 1) ok bp w')
      else (Inr success, attempts, backup_path, w))"
  by pat_completeness auto
termination
  by (relation "measure (\<lambda>(mk, vf, a, attempts, success, backup_path, w).
                  nat (arg_retries a + 1 - attempts))") auto

declare retry_loop.simps [simp del]

text \<open>
  How \<^verbatim>\<open>main\<close> ends: it returns, it raises \<^verbatim>\<open>SystemExit(1)\<close> (line 142), or an exception
  leaves it uncaught. The interpreter's exit status is 0, the argument of \<^verbatim>\<open>SystemExit\<close>,
  or 1 after the traceback of an uncaught exception.
\<close>

datatype outcome = Returned | SystemExit int | Uncaught error

fun exit_status :: "outcome \<Rightarrow> int" where
  "exit_status Returned = 0"
| "exit_status (SystemExit n) = n"
| "exit_status (Uncaught e) = 1"

definition run :: "creator \<Rightarrow> verifier \<Rightarrow> args \<Rightarrow> world \<Rightarrow> outcome \<times> world" where
  "run mk vf a w =
     (case retry_loop mk vf a 0 False None w of
        (Inl e, attempts, bp, w') \<Rightarrow> (Uncaught e, w')
      | (Inr success, attempts, bp, w') \<Rightarrow>
          (if \<not> success then (SystemExit 1, w') else (Returned, w')))"

definition main :: "args \<Rightarrow> world \<Rightarrow> outcome \<times> world" where
  "main a w = run make_backup verify_backup a w"

text \<open>The rows of a content, oldest first.\<close>

fun rows_of :: "content \<Rightarrow> row list" where
  "rows_of (Appended c r) = rows_of c @ [r]"
| "rows_of (Bytes s) = []"
| "rows_of (Archive gz ms) = []"

definition log_rows :: "world \<Rightarrow> path \<Rightarrow> row list" where
  "log_rows w logfile =
     (case lookup (fs w) logfile of Some (File c t) \<Rightarrow> rows_of c | _ \<Rightarrow> [])"


subsection \<open>Creating and then verifying\<close>

text \<open>
  The expression \<^verbatim>\<open>verify_backup(source, make_backup(source, dest_dir, compress))\<close>, which
  lines 124 and 125 of \<^verbatim>\<open>main\<close> evaluate in two steps: an exception of the inner call is
  the exception of the whole.
\<close>

definition verify_created :: "world \<Rightarrow> path \<Rightarrow> path \<Rightarrow> bool \<Rightarrow> (error + bool) \<times> world" where
  "verify_created w source dest_dir compress =
     (case make_backup w source dest_dir compress of
        (Inl e, w1) \<Rightarrow> (Inl e, w1)
      | (Inr p, w1) \<Rightarrow> verify_backup w1 source p)"

subsection \<open>Concrete inputs\<close>

text \<open>
  A working directory \<^verbatim>\<open>/home\<close> with a file \<^verbatim>\<open>f.txt\<close> and a directory \<^verbatim>\<open>d\<close> of two
  files; no directory \<^verbatim>\<open>logs\<close>, no directory \<^verbatim>\<open>backups\<close>.
\<close>

definition home_tree :: node where
  "home_tree =
     Dir [(''home'',
           Dir [(''f.txt'', File (Bytes ''hello'') 5),
                (''d'', Dir [(''b.txt'', File (Bytes ''world'') 3),
                             (''a.txt'', File (Bytes ''hello'') 2)])])]"

definition home_world :: world where
  "home_world = \<lparr>fs = home_tree, cwd = [''home''], now = 100\<rparr>"

text \<open>The command line \<^verbatim>\<open>--source f.txt --dest backups --compress\<close> with the defaults.\<close>

definition default_args :: args where
  "default_args =
     \<lparr>arg_source = [''home'', ''f.txt''], arg_dest = [''home'', ''backups''],
      arg_compress = True, arg_retries = 2, arg_keep = 7,
      arg_logfile = [''home'', ''logs'', ''backup_log.csv'']\<rparr>"


subsection \<open>Renaming an entry of a directory\<close>

text \<open>
  What \<^verbatim>\<open>os.rename(d/old, d/new)\<close> does to the entries of the directory \<open>d\<close>: the entry
  keeps its place in the enumeration and its content. \<open>rename_head\<close> is the effect on
  the paths below \<open>d\<close>.
\<close>

definition rename_entry :: "string \<Rightarrow> string \<Rightarrow> (string \<times> node) list \<Rightarrow> (string \<times> node) list" where
  "rename_entry old new es = map (\<lambda>e. if fst e = old then (new, snd e) else e) es"

definition rename_head :: "string \<Rightarrow> string \<Rightarrow> path \<Rightarrow> path" where
  "rename_head old new p = (case p of [] \<Rightarrow> [] | k # q \<Rightarrow> (if k = old then new else k) # q)"

text \<open>
  The contents of the regular files below \<open>root\<close>, in the order of their paths: the order in
  which \<^verbatim>\<open>agg_checksum\<close> feeds their digests to the hash.
\<close>

definition sorted_contents :: "node \<Rightarrow> path \<Rightarrow> content list" where
  "sorted_contents root0 root = map snd (sort_key fst (regular (rglob_at root0 root ''*'')))"

text \<open>The directory \<^verbatim>\<open>/home/d\<close> of \<open>home_tree\<close>, and the tree with entries \<open>es\<close> in its place.\<close>

definition d_entries :: "(string \<times> node) list" where
  "d_entries = [(''b.txt'', File (Bytes ''world'') 3), (''a.txt'', File (Bytes ''hello'') 2)]"

definition home_with_d :: "(string \<times> node) list \<Rightarrow> node" where
  "home_with_d es = Dir [(''home'', Dir [(''f.txt'', File (Bytes ''hello'') 5), (''d'', Dir es)])]"


subsection \<open>The regular files of a directory\<close>

text \<open>The names and modification times of the regular files directly inside a directory.\<close>

definition files_in :: "world \<Rightarrow> path \<Rightarrow> (string \<times> nat) list" where
  "files_in w d = (case lookup (fs w) d of Some (Dir es) \<Rightarrow> file_mtimes es | _ \<Rightarrow> [])"

text \<open>
  A destination directory \<^verbatim>\<open>/home/backups\<close> with five regular files of distinct
  modification times and a subdirectory, and what two-file retention leaves of it.
\<close>

definition backups_world :: world where
  "backups_world =
     \<lparr>fs = Dir [(''home'',
                Dir [(''backups'',
                      Dir [(''a'', File (Bytes ''1'') 10), (''b'', File (Bytes ''2'') 50),
                           (''old'', Dir []), (''c'', File (Bytes ''3'') 30),
                           (''d'', File (Bytes ''4'') 20), (''e'', File (Bytes ''5'') 40)])])],
      cwd = [''home''], now = 100\<rparr>"

definition backups_rotated :: world where
  "backups_rotated =
     \<lparr>fs = Dir [(''home'',
                Dir [(''backups'',
                      Dir [(''b'', File (Bytes ''2'') 50), (''old'', Dir []),
                           (''e'', File (Bytes ''5'') 40)])])],
      cwd = [''home''], now = 100\<rparr>"


subsection \<open>A world with a scratch directory left behind\<close>




subsection \<open>A source file whose name is a glob pattern\<close>


subsection \<open>A working directory with a directory for the log\<close>


subsection \<open>Writing the log, and a verification that fails\<close>

text \<open>
  \<^verbatim>\<open>open(logfile, "a")\<close> succeeds on a regular file, and on a path that does not exist in
  a directory that does; \<^verbatim>\<open>log_entry\<close> returns in exactly these cases (lemma
  \<open>loggable_iff\<close> below).
\<close>

definition loggable :: "node \<Rightarrow> path \<Rightarrow> bool" where
  "loggable root p =
     (case lookup root p of
        Some (File c t) \<Rightarrow> True
      | Some (Dir es) \<Rightarrow> False
      | None \<Rightarrow> is_dir root (butlast p))"




section \<open>Properties\<close>

subsection \<open>\<^verbatim>\<open>make_backup\<close> and the unbound name\<close>

lemma load_global_Path: "load_global ''Path'' = Inl (NameError ''Path'')"
  by (simp add: load_global_def module_globals_def builtins_def)

lemma make_backup_NameError: "make_backup w source dest_dir compress = (Inl (NameError ''Path''), w)"
  by (simp add: make_backup_def load_global_Path)

text \<open>
  C2. Whatever the source path, the destination directory and the compress flag,
  \<^verbatim>\<open>make_backup\<close> raises \<^verbatim>\<open>NameError\<close> for the name \<^verbatim>\<open>Path\<close> of line 22, which only
  the module \<^verbatim>\<open>pathlib\<close> would provide: it returns no archive path and leaves the world
  as it found it, so that no destination directory is created and no artifact is written.
\<close>

theorem make_backup_always_raises:
  "make_backup w source dest_dir compress = (Inl (NameError ''Path''), w)
   \<and> ''Path'' \<notin> set module_globals \<and> ''pathlib'' \<in> set module_globals
   \<and> fs (snd (make_backup w source dest_dir compress)) = fs w"
  by (simp add: make_backup_NameError module_globals_def)

text \<open>
  C1. The round trip: verifying what \<^verbatim>\<open>make_backup\<close> has just created should return
  true. In the code it never does: for every source, file or directory, and both compress
  settings, the creation raises \<^verbatim>\<open>NameError\<close> and no verification takes place.
\<close>

theorem round_trip_raises:
  "verify_created w source dest_dir compress = (Inl (NameError ''Path''), w)
   \<and> fst (verify_created home_world [''home'', ''f.txt''] [''home'', ''backups''] True) \<noteq> Inr True"
  by (simp add: verify_created_def make_backup_NameError)

subsection \<open>The retry loop\<close>

text \<open>
  C10. With a negative \<^verbatim>\<open>--retries\<close> the loop condition fails at once: no attempt is made
  (the counter stays 0), the world is unchanged (no log record, no artifact), and
  \<^verbatim>\<open>main\<close> raises \<^verbatim>\<open>SystemExit(1)\<close>.
\<close>

theorem negative_retries_no_attempt:
  assumes "arg_retries a < 0"
  shows "retry_loop mk vf a 0 False None w = (Inr False, 0, None, w)
         \<and> run mk vf a w = (SystemExit 1, w)
         \<and> main a w = (SystemExit 1, w)
         \<and> exit_status (fst (main a w)) = 1"
  using assms by (simp add: run_def main_def retry_loop.simps)

theorem negative_retries_no_attempt_witness:
  "arg_retries (default_args\<lparr>arg_retries := - 1\<rparr>) < 0
   \<and> main (default_args\<lparr>arg_retries := - 1\<rparr>) home_world = (SystemExit 1, home_world)
   \<and> log_rows (snd (main (default_args\<lparr>arg_retries := - 1\<rparr>) home_world))
        (arg_logfile default_args) = []"
  using negative_retries_no_attempt [of "default_args\<lparr>arg_retries := - 1\<rparr>" make_backup verify_backup home_world]
  by (simp add: log_rows_def home_world_def home_tree_def default_args_def)


subsection \<open>The aggregate checksum\<close>

lemma glob_match_star: "glob_match ''*'' s = True"
  by (induction s) (simp_all add: glob_match.simps)

lemma rglob_rename:
  assumes "\<And>k. m k"
  shows "rglob m (Dir (rename_entry old new es)) =
         map (\<lambda>r. (rename_head old new (fst r), snd r)) (rglob m (Dir es))"
  by (simp add: assms rename_entry_def rename_head_def comp_def map_concat
        if_distrib [of fst] if_distrib [of snd] cong: if_cong)

lemma regular_map:
  "regular (map (\<lambda>r. (h (fst r), snd r)) xs) = map (\<lambda>r. (h (fst r), snd r)) (regular xs)"
  by (induction xs rule: regular.induct) simp_all

lemma regular_fst: "x \<in> set (regular xs) \<Longrightarrow> fst x \<in> fst ` set xs"
  by (induction xs rule: regular.induct) auto

lemma rglob_heads: "r \<in> set (rglob m (Dir es)) \<Longrightarrow> \<exists>k q. fst r = k # q \<and> k \<in> fst ` set es"
  by force

lemma insort_key_cong_order:
  "\<forall>y\<in>set ys. (f x \<le> f y) = (g x \<le> g y) \<Longrightarrow> insort_key f x ys = insort_key g x ys"
  by (induction ys) simp_all

lemma sort_key_cong_order:
  "\<forall>x\<in>set xs. \<forall>y\<in>set xs. (f x \<le> f y) = (g x \<le> g y) \<Longrightarrow> sort_key f xs = sort_key g xs"
proof (induction xs)
  case Nil
  then show ?case by simp
next
  case (Cons x xs)
  then have "sort_key f xs = sort_key g xs" by simp
  moreover have "insort_key f x (sort_key g xs) = insort_key g x (sort_key g xs)"
    using Cons.prems by (intro insort_key_cong_order) simp
  ultimately show ?case by simp
qed

lemma insort_key_map: "insort_key f (h x) (map h ys) = map h (insort_key (\<lambda>a. f (h a)) x ys)"
  by (induction ys) simp_all

lemma sort_key_map: "sort_key f (map h xs) = map h (sort_key (\<lambda>a. f (h a)) xs)"
  by (induction xs) (simp_all add: insort_key_map)

lemma rename_head_order:
  assumes H: "\<forall>k\<in>N. k \<noteq> old \<longrightarrow> k \<noteq> new \<and> (k < old) = (k < new)"
      and x: "x = k # q" "k \<in> N" and y: "y = k' # q'" "k' \<in> N"
  shows "(rename_head old new x \<le> rename_head old new y) = (x \<le> y)"
proof -
  define rn where "rn j = (if j = old then new else j)" for j
  have inj: "(rn k = rn k') = (k = k')"
    using H x(2) y(2) by (auto simp: rn_def)
  have mono: "(rn k < rn k') = (k < k')"
    using H x(2) y(2) by (auto simp: rn_def not_less_iff_gr_or_eq)
  show ?thesis
    using inj mono by (simp add: x(1) y(1) rename_head_def rn_def)
qed

text \<open>
  Renaming an entry of the directory to a name that is new there and compares with the
  names of the other entries as the old name did leaves the aggregate checksum as it was.
\<close>

lemma agg_checksum_rename_same_rank:
  assumes "lookup root0 root = Some (Dir es)"
      and "lookup root1 root = Some (Dir (rename_entry old new es))"
      and H: "\<forall>k\<in>fst ` set es. k \<noteq> old \<longrightarrow> k \<noteq> new \<and> (k < old) = (k < new)"
  shows "agg_checksum root1 root = agg_checksum root0 root"
proof -
  let ?h = "\<lambda>r. (rename_head old new (fst r), snd r)"
  let ?L = "regular (rglob (glob_match ''*'') (Dir es))"
  have L': "regular (rglob (glob_match ''*'') (Dir (rename_entry old new es))) = map ?h ?L"
    by (simp only: rglob_rename [of "glob_match ''*''", OF glob_match_star [THEN iffD2, OF TrueI]]
          regular_map)
  have heads: "\<exists>k q. fst x = k # q \<and> k \<in> fst ` set es" if "x \<in> set ?L" for x
  proof -
    from regular_fst [OF that]
    obtain r where r: "r \<in> set (rglob (glob_match ''*'') (Dir es))" "fst x = fst r"
      by blast
    from rglob_heads [OF r(1)] r(2) show ?thesis by simp
  qed
  have ord: "\<forall>x\<in>set ?L. \<forall>y\<in>set ?L. (fst (?h x) \<le> fst (?h y)) = (fst x \<le> fst y)"
  proof (intro ballI)
    fix x y assume xy: "x \<in> set ?L" "y \<in> set ?L"
    from heads [OF xy(1)] obtain k q where kq: "fst x = k # q" "k \<in> fst ` set es"
      by (elim exE conjE)
    from heads [OF xy(2)] obtain k' q' where kq': "fst y = k' # q'" "k' \<in> fst ` set es"
      by (elim exE conjE)
    from kq kq'
    have "(rename_head old new (fst x) \<le> rename_head old new (fst y)) = (fst x \<le> fst y)"
      by (rule rename_head_order [OF H])
    then show "(fst (?h x) \<le> fst (?h y)) = (fst x \<le> fst y)"
      by (simp only: fst_conv)
  qed
  have "sort_key fst (map ?h ?L) = map ?h (sort_key (\<lambda>a. fst (?h a)) ?L)"
    by (rule sort_key_map)
  also have "sort_key (\<lambda>a. fst (?h a)) ?L = sort_key fst ?L"
    by (rule sort_key_cong_order) (use ord in blast)
  finally have "map (\<lambda>f. Sha256 (snd f)) (sort_key fst (map ?h ?L)) =
                map (\<lambda>f. Sha256 (snd f)) (sort_key fst ?L)"
    by (simp only: map_map comp_def snd_conv)
  then show ?thesis
    unfolding agg_checksum_def rglob_at_def Let_def
    by (simp only: assms(1,2) option.case L')
qed

lemma agg_checksum_sorted_contents:
  "agg_checksum root0 root = Sha256_hex (map Sha256 (sorted_contents root0 root))"
  by (simp add: agg_checksum_def sorted_contents_def comp_def)

text \<open>
  C4, as the code has it. \<^verbatim>\<open>agg_checksum\<close> is the hash of the digests of the files'
  contents taken in the order of their paths; no name enters it. Whatever a change of the
  directory is, the renaming of one contained file with every content unchanged among
  them, the aggregate checksum changes exactly when the path-sorted sequence of the
  contents changes.
\<close>

theorem agg_checksum_changes_iff_contents:
  "agg_checksum root0 root = Sha256_hex (map Sha256 (sorted_contents root0 root))
   \<and> (agg_checksum root1 root \<noteq> agg_checksum root0 root)
       = (sorted_contents root1 root \<noteq> sorted_contents root0 root)"
proof -
  have "inj Sha256" by (rule injI) simp
  then have "(map Sha256 xs = map Sha256 ys) = (xs = ys)" for xs ys
    by (rule inj_map_eq_map)
  then show ?thesis by (simp add: agg_checksum_sorted_contents)
qed

text \<open>
  In \<^verbatim>\<open>/home/d\<close>, renaming \<^verbatim>\<open>a.txt\<close> to \<^verbatim>\<open>c.txt\<close> moves its content behind that of
  \<^verbatim>\<open>b.txt\<close> and changes the checksum; renaming it to \<^verbatim>\<open>a2.txt\<close> does neither.
\<close>

theorem agg_checksum_changes_iff_contents_witness:
  "sorted_contents (home_with_d d_entries) [''home'', ''d''] = [Bytes ''hello'', Bytes ''world'']
   \<and> sorted_contents (home_with_d (rename_entry ''a.txt'' ''c.txt'' d_entries)) [''home'', ''d'']
       = [Bytes ''world'', Bytes ''hello'']
   \<and> agg_checksum (home_with_d (rename_entry ''a.txt'' ''c.txt'' d_entries)) [''home'', ''d'']
       \<noteq> agg_checksum (home_with_d d_entries) [''home'', ''d'']
   \<and> sorted_contents (home_with_d (rename_entry ''a.txt'' ''a2.txt'' d_entries)) [''home'', ''d'']
       = [Bytes ''hello'', Bytes ''world'']
   \<and> agg_checksum (home_with_d (rename_entry ''a.txt'' ''a2.txt'' d_entries)) [''home'', ''d'']
       = agg_checksum (home_with_d d_entries) [''home'', ''d'']"
proof -
  have 0: "sorted_contents (home_with_d d_entries) [''home'', ''d''] = [Bytes ''hello'', Bytes ''world'']"
    by (simp add: sorted_contents_def rglob_at_def home_with_d_def d_entries_def glob_match_star
          less_char_def)
  have 1: "sorted_contents (home_with_d (rename_entry ''a.txt'' ''c.txt'' d_entries)) [''home'', ''d'']
       = [Bytes ''world'', Bytes ''hello'']"
    by (simp add: sorted_contents_def rglob_at_def home_with_d_def d_entries_def glob_match_star
          rename_entry_def less_char_def)
  have 2: "sorted_contents (home_with_d (rename_entry ''a.txt'' ''a2.txt'' d_entries)) [''home'', ''d'']
       = [Bytes ''hello'', Bytes ''world'']"
    by (simp add: sorted_contents_def rglob_at_def home_with_d_def d_entries_def glob_match_star
          rename_entry_def less_char_def)
  from agg_checksum_changes_iff_contents
         [of "home_with_d d_entries" "[''home'', ''d'']"
             "home_with_d (rename_entry ''a.txt'' ''c.txt'' d_entries)", THEN conjunct2] 0 1
  have 3: "agg_checksum (home_with_d (rename_entry ''a.txt'' ''c.txt'' d_entries)) [''home'', ''d'']
       \<noteq> agg_checksum (home_with_d d_entries) [''home'', ''d'']" by simp
  from agg_checksum_changes_iff_contents
         [of "home_with_d d_entries" "[''home'', ''d'']"
             "home_with_d (rename_entry ''a.txt'' ''a2.txt'' d_entries)", THEN conjunct2] 0 2
  have 4: "agg_checksum (home_with_d (rename_entry ''a.txt'' ''a2.txt'' d_entries)) [''home'', ''d'']
       = agg_checksum (home_with_d d_entries) [''home'', ''d'']" by simp
  from 0 1 2 3 4 show ?thesis by (intro conjI)
qed


text \<open>
  C4 as the specification states it fails: renaming \<^verbatim>\<open>a.txt\<close> to \<^verbatim>\<open>a2.txt\<close> in
  \<^verbatim>\<open>/home/d\<close>, with every content unchanged, does not change the aggregate checksum.
\<close>

theorem agg_checksum_rename_counterexample:
  "rename_entry ''a.txt'' ''a2.txt'' d_entries
     = [(''b.txt'', File (Bytes ''world'') 3), (''a2.txt'', File (Bytes ''hello'') 2)]
   \<and> agg_checksum (home_with_d (rename_entry ''a.txt'' ''a2.txt'' d_entries)) [''home'', ''d'']
       = agg_checksum (home_with_d d_entries) [''home'', ''d'']
   \<and> agg_checksum (home_with_d d_entries) [''home'', ''d'']
       = Sha256_hex [Sha256 (Bytes ''hello''), Sha256 (Bytes ''world'')]"
  by (simp add: agg_checksum_def rglob_at_def rename_entry_def home_with_d_def d_entries_def
        glob_match_star less_char_def)


subsection \<open>Lookups after a change of the tree\<close>

lemma map_of_replace_same:
  "k \<in> fst ` set es \<Longrightarrow>
   map_of (map (\<lambda>(k', n'). if k' = k then (k', n) else (k', n')) es) k = Some n"
  by (induction es) auto

lemma map_of_set_entry_same: "map_of (set_entry k n es) k = Some n"
  by (auto simp: set_entry_def map_of_replace_same map_add_Some_iff map_of_eq_None_iff)

lemma map_of_del_entry_same: "map_of (del_entry k es) k = None"
  by (induction es) (auto simp: del_entry_def)

lemma remove_Cons: "p \<noteq> [] \<Longrightarrow> remove (k # p) (Dir es) =
     (case map_of es k of None \<Rightarrow> None
      | Some n \<Rightarrow> (case remove p n of None \<Rightarrow> None | Some n' \<Rightarrow> Some (Dir (set_entry k n' es))))"
  by (cases p) auto

lemma store_Cons: "p \<noteq> [] \<Longrightarrow> store (k # p) new (Dir es) =
     (case map_of es k of None \<Rightarrow> None
      | Some n \<Rightarrow> (case store p new n of None \<Rightarrow> None | Some n' \<Rightarrow> Some (Dir (set_entry k n' es))))"
  by (cases p) auto

lemma lookup_append: "lookup root (p @ q) = (case lookup root p of None \<Rightarrow> None | Some n \<Rightarrow> lookup n q)"
  by (induction root p rule: lookup.induct) (auto split: option.splits)

lemma remove_last:
  "lookup root p = Some (Dir es) \<Longrightarrow> k \<in> fst ` set es \<Longrightarrow>
   \<exists>root'. remove (p @ [k]) root = Some root' \<and> lookup root' p = Some (Dir (del_entry k es))"
proof (induction p arbitrary: root)
  case Nil
  then show ?case by simp
next
  case (Cons k0 p)
  from Cons.prems(1) obtain es0 n where root: "root = Dir es0" and n: "map_of es0 k0 = Some n"
    and l: "lookup n p = Some (Dir es)"
    by (cases root) (auto split: option.splits)
  from Cons.IH [OF l Cons.prems(2)] obtain n' where
    n': "remove (p @ [k]) n = Some n'" "lookup n' p = Some (Dir (del_entry k es))" by blast
  show ?case
    by (simp add: root remove_Cons n n' map_of_set_entry_same)
qed

subsection \<open>\<^verbatim>\<open>rotate_backups\<close>\<close>

lemma file_mtimes_mem: "(k, t) \<in> set (file_mtimes es) \<Longrightarrow> \<exists>c. (k, File c t) \<in> set es"
  by (induction es rule: file_mtimes.induct) auto

lemma file_mtimes_filter:
  "file_mtimes (filter (\<lambda>e. P (fst e)) es) = filter (\<lambda>f. P (fst f)) (file_mtimes es)"
  by (induction es rule: file_mtimes.induct) auto

lemma file_mtimes_names: "fst ` set (file_mtimes es) \<subseteq> fst ` set es"
  by (induction es rule: file_mtimes.induct) auto

lemma distinct_file_mtimes: "distinct (map fst es) \<Longrightarrow> distinct (map fst (file_mtimes es))"
proof (induction es rule: file_mtimes.induct)
  case (2 k c t es)
  then show ?case using file_mtimes_names [of es] by auto
qed auto

lemma unlink_file:
  assumes "lookup root dest = Some (Dir es)" "distinct (map fst es)" "(k, t) \<in> set (file_mtimes es)"
  shows "\<exists>root'. unlink (dest @ [k]) root = Inr root' \<and> lookup root' dest = Some (Dir (del_entry k es))"
proof -
  from file_mtimes_mem [OF assms(3)] obtain c where c: "(k, File c t) \<in> set es" by blast
  then have m: "map_of es k = Some (File c t)" using assms(2) by simp
  have k: "k \<in> fst ` set es" using c by force
  from remove_last [OF assms(1) k] obtain root' where
    r: "remove (dest @ [k]) root = Some root'" "lookup root' dest = Some (Dir (del_entry k es))" by blast
  show ?thesis
    by (simp add: unlink_def lookup_append assms(1) m r)
qed

lemma unlink_all_files:
  "lookup root dest = Some (Dir es) \<Longrightarrow> distinct (map fst es) \<Longrightarrow>
   set vs \<subseteq> set (file_mtimes es) \<Longrightarrow> distinct (map fst vs) \<Longrightarrow>
   \<exists>root'. unlink_all (map (\<lambda>old. dest @ [fst old]) vs) root = (Inr (), root')
          \<and> lookup root' dest = Some (Dir (filter (\<lambda>e. fst e \<notin> fst ` set vs) es))"
proof (induction vs arbitrary: root es)
  case Nil
  then show ?case by simp
next
  case (Cons v vs)
  obtain k t where v: "v = (k, t)" by (cases v)
  from Cons.prems(3) v have kt: "(k, t) \<in> set (file_mtimes es)" by simp
  from unlink_file [OF Cons.prems(1,2) kt] obtain root1 where
    r1: "unlink (dest @ [k]) root = Inr root1" "lookup root1 dest = Some (Dir (del_entry k es))" by blast
  have d1: "distinct (map fst (del_entry k es))"
    using Cons.prems(2) by (simp add: del_entry_def distinct_map_filter)
  have fm: "file_mtimes (del_entry k es) = filter (\<lambda>f. fst f \<noteq> k) (file_mtimes es)"
    using file_mtimes_filter [of "\<lambda>x. x \<noteq> k" es] by (simp add: del_entry_def case_prod_unfold)
  have s1: "set vs \<subseteq> set (file_mtimes (del_entry k es))"
    using Cons.prems(3,4) v by (auto simp: fm)
  have dv: "distinct (map fst vs)" using Cons.prems(4) by simp
  from Cons.IH [OF r1(2) d1 s1 dv] obtain root' where
    r': "unlink_all (map (\<lambda>old. dest @ [fst old]) vs) root1 = (Inr (), root')"
        "lookup root' dest = Some (Dir (filter (\<lambda>e. fst e \<notin> fst ` set vs) (del_entry k es)))" by blast
  have "filter (\<lambda>e. fst e \<notin> fst ` set vs) (del_entry k es) = filter (\<lambda>e. fst e \<notin> fst ` set (v # vs)) es"
    by (auto simp: del_entry_def v case_prod_unfold intro: filter_cong)
  with r1 r' show ?case by (simp add: v)
qed

lemma rotate_backups_result:
  assumes l: "lookup (fs w) dest = Some (Dir es)" and d: "distinct (map fst es)"
  shows "\<exists>root'. rotate_backups w dest keep = (Inr (), w\<lparr>fs := root'\<rparr>)
           \<and> lookup root' dest =
               Some (Dir (filter (\<lambda>e. fst e \<notin> fst ` set (slice_from keep
                      (sort_key (\<lambda>f. - int (snd f)) (file_mtimes es)))) es))"
proof -
  let ?F = "file_mtimes es"
  let ?S = "sort_key (\<lambda>f. - int (snd f)) ?F"
  let ?V = "slice_from keep ?S"
  have dF: "distinct (map fst ?F)" by (rule distinct_file_mtimes [OF d])
  have "distinct (map fst ?S)"
    using dF by (simp add: distinct_map)
  then have dV: "distinct (map fst ?V)"
    by (simp add: slice_from_def drop_map [symmetric])
  have sV: "set ?V \<subseteq> set ?F"
    using set_drop_subset [of _ ?S] by (auto simp: slice_from_def)
  from unlink_all_files [OF l d sV dV] obtain root' where
    r: "unlink_all (map (\<lambda>old. dest @ [fst old]) ?V) (fs w) = (Inr (), root')"
       "lookup root' dest = Some (Dir (filter (\<lambda>e. fst e \<notin> fst ` set ?V) es))" by blast
  have "rotate_backups w dest keep = (Inr (), w\<lparr>fs := root'\<rparr>)"
    using r(1) by (simp add: rotate_backups_def l Let_def)
  with r(2) show ?thesis by blast
qed

lemma sorted_take_drop:
  assumes "sorted (map f xs)" "x \<in> set (take n xs)" "y \<in> set (drop n xs)"
  shows "f x \<le> f y"
proof -
  have "sorted (map f (take n xs) @ map f (drop n xs))"
    using assms(1) by (simp add: map_append [symmetric] del: map_append)
  then show ?thesis using assms(2,3) by (auto simp: sorted_append)
qed

text \<open>
  C7. In a destination directory (its entries have distinct names) that holds five regular
  files of pairwise distinct modification times, \<^verbatim>\<open>rotate_backups\<close> with \<^verbatim>\<open>keep = 2\<close>
  succeeds, leaves two of the files and deletes three, every file it leaves is more recent
  than every file it deletes, and a second run with the same \<^verbatim>\<open>keep\<close> changes nothing.
\<close>

theorem rotate_keeps_two_newest:
  assumes l: "lookup (fs w) dest = Some (Dir es)" and d: "distinct (map fst es)"
      and five: "length (files_in w dest) = 5"
      and dm: "distinct (map snd (files_in w dest))"
  shows "\<exists>w'. rotate_backups w dest 2 = (Inr (), w')
           \<and> set (files_in w' dest) \<subseteq> set (files_in w dest)
           \<and> length (files_in w' dest) = 2
           \<and> card (set (files_in w dest) - set (files_in w' dest)) = 3
           \<and> (\<forall>kept\<in>set (files_in w' dest).
                 \<forall>gone\<in>set (files_in w dest) - set (files_in w' dest). snd gone < snd kept)
           \<and> rotate_backups w' dest 2 = (Inr (), w')"
proof -
  let ?F = "file_mtimes es"
  let ?S = "sort_key (\<lambda>f. - int (snd f)) ?F"
  let ?V = "drop 2 ?S"
  have F: "files_in w dest = ?F" by (simp add: files_in_def l)
  have V: "slice_from 2 ?S = ?V" by (simp add: slice_from_def)
  from rotate_backups_result [OF l d, of 2] obtain root' where
    r: "rotate_backups w dest 2 = (Inr (), w\<lparr>fs := root'\<rparr>)"
       "lookup root' dest = Some (Dir (filter (\<lambda>e. fst e \<notin> fst ` set ?V) es))"
    by (auto simp: V)
  let ?w' = "w\<lparr>fs := root'\<rparr>"
  let ?K = "files_in ?w' dest"
  have dF: "distinct ?F" using dm by (simp add: F distinct_map)
  have inj: "inj_on fst (set ?F)" using distinct_file_mtimes [OF d] by (simp add: distinct_map)
  have dS: "distinct ?S" using dF by simp
  have lenS: "length ?S = 5" using five by (simp add: F)
  have setS: "set ?S = set ?F" by simp
  have sV: "set ?V \<subseteq> set ?F" using set_drop_subset [of 2 ?S] by simp
  have K: "?K = filter (\<lambda>f. fst f \<notin> fst ` set ?V) ?F"
    using file_mtimes_filter [of "\<lambda>x. x \<notin> fst ` set ?V" es] by (simp add: files_in_def r(2))
  have mem: "(fst f \<in> fst ` set ?V) = (f \<in> set ?V)" if "f \<in> set ?F" for f
    using that sV inj by (auto dest: inj_onD)
  have K': "?K = filter (\<lambda>f. f \<notin> set ?V) ?F"
    unfolding K by (rule filter_cong) (auto simp: mem)
  have split1: "set (take 2 ?S) \<union> set ?V = set ?F"
    using set_append [of "take 2 ?S" ?V] by (simp only: append_take_drop_id setS)
  have "distinct (take 2 ?S @ ?V)" using dS by (simp only: append_take_drop_id)
  then have split2: "set (take 2 ?S) \<inter> set ?V = {}" by (simp only: distinct_append)
  note split = split1 split2
  have setK: "set ?K = set (take 2 ?S)" using split by (auto simp: K')
  have dK: "distinct ?K" using dF by (simp add: K')
  have "length ?K = card (set (take 2 ?S))" using dK setK distinct_card by metis
  also have "\<dots> = 2" using dS lenS by (simp add: distinct_card)
  finally have len: "length ?K = 2" .
  have gone: "set ?F - set ?K = set ?V" using split by (auto simp: setK)
  have "card (set ?V) = 3" using dS lenS by (simp add: distinct_card)
  then have three: "card (set ?F - set ?K) = 3" by (simp only: gone)
  have newer: "snd g < snd k" if "k \<in> set ?K" "g \<in> set ?F - set ?K" for k g
  proof -
    have k: "k \<in> set (take 2 ?S)" using that(1) setK by simp
    have g: "g \<in> set ?V" using that(2) gone by simp
    have "- int (snd k) \<le> - int (snd g)"
      by (rule sorted_take_drop [OF _ k g]) simp
    moreover have "k \<noteq> g" using k g split(2) by auto
    moreover have "k \<in> set ?F" "g \<in> set ?F" using k g split(1) by auto
    ultimately show ?thesis
      using dm by (auto simp: F distinct_map dest: inj_onD simp: prod_eq_iff order_less_le)
  qed
  have "rotate_backups ?w' dest 2 = (Inr (), ?w')"
  proof -
    let ?es' = "filter (\<lambda>e. fst e \<notin> fst ` set ?V) es"
    have "length (sort_key (\<lambda>f. - int (snd f)) (file_mtimes ?es')) = 2"
      using len by (simp add: files_in_def r(2))
    then show ?thesis
      by (simp add: rotate_backups_def r(2) Let_def slice_from_def)
  qed
  with r(1) len three newer show ?thesis
    by (intro exI [of _ ?w']) (auto simp: F K' simp del: set_filter)
qed


theorem rotate_keeps_two_newest_witness:
  "rotate_backups backups_world [''home'', ''backups''] 2 = (Inr (), backups_rotated)
   \<and> files_in backups_world [''home'', ''backups'']
       = [(''a'', 10), (''b'', 50), (''c'', 30), (''d'', 20), (''e'', 40)]
   \<and> files_in backups_rotated [''home'', ''backups''] = [(''b'', 50), (''e'', 40)]
   \<and> length (files_in backups_rotated [''home'', ''backups'']) = 2
   \<and> card (set (files_in backups_world [''home'', ''backups''])
            - set (files_in backups_rotated [''home'', ''backups''])) = 3
   \<and> rotate_backups backups_rotated [''home'', ''backups''] 2 = (Inr (), backups_rotated)"
proof -
  let ?es = "[(''a'', File (Bytes ''1'') 10), (''b'', File (Bytes ''2'') 50), (''old'', Dir []),
              (''c'', File (Bytes ''3'') 30), (''d'', File (Bytes ''4'') 20),
              (''e'', File (Bytes ''5'') 40)]"
  have l: "lookup (fs backups_world) [''home'', ''backups''] = Some (Dir ?es)"
    by (simp add: backups_world_def)
  have d: "distinct (map fst ?es)" by simp
  have f: "files_in backups_world [''home'', ''backups'']
             = [(''a'', 10), (''b'', 50), (''c'', 30), (''d'', 20), (''e'', 40)]"
    by (simp add: files_in_def backups_world_def)
  have five: "length (files_in backups_world [''home'', ''backups'']) = 5" by (simp add: f)
  have dm: "distinct (map snd (files_in backups_world [''home'', ''backups'']))" by (simp add: f)
  have run: "rotate_backups backups_world [''home'', ''backups''] 2 = (Inr (), backups_rotated)"
    by (simp add: rotate_backups_def backups_world_def backups_rotated_def slice_from_def
          unlink_def set_entry_def del_entry_def)
  have f': "files_in backups_rotated [''home'', ''backups''] = [(''b'', 50), (''e'', 40)]"
    by (simp add: files_in_def backups_rotated_def)
  from rotate_keeps_two_newest [OF l d five dm] run
  have "length (files_in backups_rotated [''home'', ''backups'']) = 2"
       "card (set (files_in backups_world [''home'', ''backups''])
            - set (files_in backups_rotated [''home'', ''backups''])) = 3"
       "rotate_backups backups_rotated [''home'', ''backups''] 2 = (Inr (), backups_rotated)"
    by auto
  with run f f' show ?thesis by (intro conjI)
qed


subsection \<open>The scratch directory of \<^verbatim>\<open>verify_backup\<close>\<close>




lemma store_same: "store p new root = Some root' \<Longrightarrow> lookup root' p = Some new"
proof (induction p arbitrary: root root')
  case Nil
  then show ?case by simp
next
  case (Cons k p)
  then obtain es where root: "root = Dir es" by (cases root) auto
  show ?case
  proof (cases "p = []")
    case True
    with Cons.prems show ?thesis by (auto simp: root map_of_set_entry_same)
  next
    case False
    with Cons.prems obtain n n' where "map_of es k = Some n" "store p new n = Some n'"
      "root' = Dir (set_entry k n' es)"
      by (auto simp: root store_Cons split: option.splits)
    with Cons.IH show ?thesis by (simp add: map_of_set_entry_same)
  qed
qed

lemma remove_same: "remove p root = Some root' \<Longrightarrow> lookup root' p = None"
proof (induction p arbitrary: root root')
  case Nil
  then show ?case by simp
next
  case (Cons k p)
  then obtain es where root: "root = Dir es" by (cases root) auto
  show ?case
  proof (cases "p = []")
    case True
    with Cons.prems show ?thesis by (auto simp: root map_of_del_entry_same split: if_splits)
  next
    case False
    with Cons.prems obtain n n' where "map_of es k = Some n" "remove p n = Some n'"
      "root' = Dir (set_entry k n' es)"
      by (auto simp: root remove_Cons split: option.splits)
    with Cons.IH False show ?thesis by (cases p) (auto simp: map_of_set_entry_same)
  qed
qed


lemma store_exists:
  "lookup root (butlast p) = Some (Dir es) \<Longrightarrow> p \<noteq> [] \<Longrightarrow> \<exists>root'. store p new root = Some root'"
proof (induction p arbitrary: root)
  case Nil
  then show ?case by simp
next
  case (Cons k p)
  show ?case
  proof (cases "p = []")
    case True
    with Cons.prems show ?thesis by simp
  next
    case False
    with Cons.prems obtain es0 m where root: "root = Dir es0" and m: "map_of es0 k = Some m"
      "lookup m (butlast p) = Some (Dir es)"
      by (cases root) (auto split: option.splits)
    from Cons.IH [OF m(2) False] obtain m' where "store p new m = Some m'" by blast
    then show ?thesis by (simp add: root store_Cons False m)
  qed
qed


lemma rmtree_Inr: "rmtree p root = Inr root' \<Longrightarrow> lookup root' p = None"
  by (auto simp: rmtree_def remove_same split: option.splits node.splits)

















subsection \<open>\<^verbatim>\<open>verify_backup\<close> when the archive lacks the source file\<close>



lemma store_at_existing: "lookup root p = Some n \<Longrightarrow> \<exists>root'. store p new root = Some root'"
proof (induction p arbitrary: root)
  case Nil
  then show ?case by simp
next
  case (Cons k p)
  then obtain es m where root: "root = Dir es" and m: "map_of es k = Some m" "lookup m p = Some n"
    by (cases root) (auto split: option.splits)
  from Cons.IH [OF m(2)] obtain m' where "store p new m = Some m'" by blast
  with root m show ?case by (cases "p = []") (auto simp: store_Cons)
qed














subsection \<open>Exceptions inside an attempt\<close>









subsection \<open>Three failed verifications\<close>

lemma lookup_None_nonempty: "lookup root p = None \<Longrightarrow> p \<noteq> []"
  by (cases p) auto

lemma log_entry_loggable:
  assumes "loggable (fs w) lf"
  shows "\<exists>w2 c. log_entry w lf src bp st n msg = (Inr (), w2) \<and> lookup (fs w2) lf = Some (File c (now w))
           \<and> now w2 = now w"
proof (cases "lookup (fs w) lf")
  case None
  with assms obtain es where d: "lookup (fs w) (butlast lf) = Some (Dir es)"
    by (auto simp: loggable_def is_dir_def split: option.splits node.splits)
  from store_exists [OF d lookup_None_nonempty [OF None]]
  obtain root' where st: "store lf (File (Appended (Appended (Bytes []) Header) (Entry (now w) src bp st n msg)) (now w)) (fs w) = Some root'"
    by blast
  from store_same [OF st] st show ?thesis
    by (simp add: log_entry_def Let_def open_append_def write_file_def None d exists_path_def)
next
  case (Some nd)
  with assms obtain c t where f: "lookup (fs w) lf = Some (File c t)"
    by (cases nd) (auto simp: loggable_def)
  from store_at_existing [OF f]
  obtain root' where st: "store lf (File (Appended c (Entry (now w) src bp st n msg)) (now w)) (fs w) = Some root'"
    by blast
  from store_same [OF st] st show ?thesis
    by (simp add: log_entry_def Let_def open_append_def write_file_def f exists_path_def)
qed

lemma loggable_iff: "loggable (fs w) lf = (fst (log_entry w lf src bp st n msg) = Inr ())"
proof
  assume "loggable (fs w) lf"
  from log_entry_loggable [OF this, of src bp st n msg] show "fst (log_entry w lf src bp st n msg) = Inr ()"
    by auto
next
  assume "fst (log_entry w lf src bp st n msg) = Inr ()"
  then show "loggable (fs w) lf"
    by (auto simp: log_entry_def Let_def open_append_def loggable_def is_dir_def
             split: sum.splits option.splits node.splits)
qed






end
